theory Spec2Isabelle
  imports Complex_Main
begin

section \<open>JSON values and JavaScript objects\<close>

text \<open>
  The handlers move JSON values between the request body, the key-value store and the
  response. A number is a rational here: the handlers never compute with numbers, they
  only test them for truthiness and compare them with \<open>===\<close>. \<open>JObj\<close> lists the
  members in the order of the text; a key that occurs twice keeps its last value, as
  \<open>JSON.parse\<close> does.
\<close>

datatype json =
    JNull
  | JBool bool
  | JNum rat
  | JStr string
  | JArr "json list"
  | JObj "(string \<times> json) list"

text \<open>
  An order is a plain JavaScript object: a finite map from property names to values.
  A property that is absent (\<open>undefined\<close> when read) is \<open>None\<close>.
\<close>

type_synonym obj = "string \<rightharpoonup> json"

text \<open>Decimal rendering of an array index, the property name of an element.\<close>

definition digit_char :: "nat \<Rightarrow> char" where
  "digit_char d = ''0123456789'' ! (d mod 10)"

function show_nat :: "nat \<Rightarrow> string" where
  "show_nat n = (if n < 10 then [digit_char n] else show_nat (n div 10) @ [digit_char n])"
  by pat_completeness auto
termination
  by (relation "measure id") auto

fun index_keys :: "nat \<Rightarrow> 'a list \<Rightarrow> (string \<times> 'a) list" where
  "index_keys i [] = []"
| "index_keys i (x # xs) = (show_nat i, x) # index_keys (Suc i) xs"

text \<open>
  The own enumerable properties of a value, which is what an object spread
  \<open>{...v}\<close> copies: the members of an object, the elements of an array and the
  characters of a string under their indices, nothing for \<open>null\<close>, a boolean or a number.
  For a value other than \<open>null\<close> it is also what reading \<open>v.items\<close>,
  \<open>v.total\<close>, ... yields, none of these names being inherited from a prototype.
\<close>

fun props :: "json \<Rightarrow> obj" where
  "props (JObj kvs) = map_of (rev kvs)"
| "props (JArr xs) = map_of (index_keys 0 xs)"
| "props (JStr s) = map_of (index_keys 0 (map (\<lambda>c. JStr [c]) s))"
| "props JNull = Map.empty"
| "props (JBool b) = Map.empty"
| "props (JNum n) = Map.empty"

text \<open>JavaScript truthiness of a JSON value, and \<open>v || d\<close> on a property read.\<close>

fun truthy :: "json \<Rightarrow> bool" where
  "truthy JNull = False"
| "truthy (JBool b) = b"
| "truthy (JNum n) = (n \<noteq> 0)"
| "truthy (JStr s) = (s \<noteq> [])"
| "truthy (JArr xs) = True"
| "truthy (JObj kvs) = True"

definition or_default :: "json option \<Rightarrow> json \<Rightarrow> json" where
  "or_default v d = (case v of None \<Rightarrow> d | Some x \<Rightarrow> if truthy x then x else d)"

section \<open>Requests, the environment and the store\<close>

text \<open>
  \<open>req_method\<close> is \<open>req.method\<close> and \<open>url\<close> is \<open>req.url\<close>;
  \<open>chunks\<close> are the pieces of the request stream that \<open>parseBody\<close> concatenates;
  \<open>body\<close> is \<open>req.body\<close> as the framework (Express, or the CommonJS runtime)
  presents it, \<open>None\<close> being \<open>undefined\<close>.
\<close>

record request =
  req_method :: string
  url :: string
  chunks :: "string list"
  body :: "json option"

text \<open>
  Everything a handler obtains from outside during one request: the clock readings
  (\<open>Date.now()\<close> and the three renderings of \<open>new Date()\<close>), whether
  \<open>kv.get\<close> and \<open>kv.set\<close> throw, the library function \<open>JSON.parse\<close>
  (\<open>None\<close> when it throws), the text the engine puts into a \<open>TypeError\<close>, and
  the configuration flags the health check reports.
\<close>

record env =
  Date_now :: int
  toISOString :: string
  toLocaleTimeString :: string
  toLocaleDateString :: string
  kv_get_throws :: bool
  kv_set_throws :: bool
  JSON_parse :: "string \<Rightarrow> json option"
  error_message :: string
  error_stack :: "string option"
  has_REDIS_URL :: bool
  has_kvUrl :: bool
  has_kvToken :: bool

text \<open>
  The value stored under \<open>ORDERS_KEY\<close>: \<open>None\<close> while the key was never written
  (\<open>kv.get\<close> yields \<open>null\<close>), otherwise the array of orders last written.
\<close>

type_synonym store = "obj list option"

datatype rbody = End | Json_list "obj list" | Json obj

type_synonym response = "nat \<times> rbody"

definition stored :: "store \<Rightarrow> obj list" where
  "stored s = (case s of None \<Rightarrow> [] | Some os \<Rightarrow> os)"

definition readOrders :: "env \<Rightarrow> store \<Rightarrow> obj list" where
  "readOrders e s = (if kv_get_throws e then [] else stored s)"

definition writeOrders :: "env \<Rightarrow> store \<Rightarrow> obj list \<Rightarrow> bool \<times> store" where
  "writeOrders e s os = (if kv_set_throws e then (False, s) else (True, Some os))"

definition parseBody :: "env \<Rightarrow> request \<Rightarrow> json" where
  "parseBody e req =
     (case JSON_parse e (concat (chunks req)) of Some v \<Rightarrow> v | None \<Rightarrow> JObj [])"

section \<open>Routing helpers\<close>

definition path_of :: "string \<Rightarrow> string" where
  "path_of u = takeWhile (\<lambda>c. c \<noteq> CHR ''?'') u"

definition is_digit :: "char \<Rightarrow> bool" where
  "is_digit c = (c \<in> set ''0123456789'')"

fun strip_prefix :: "string \<Rightarrow> string \<Rightarrow> string option" where
  "strip_prefix [] s = Some s"
| "strip_prefix (p # ps) [] = None"
| "strip_prefix (p # ps) (c # cs) = (if p = c then strip_prefix ps cs else None)"

text \<open>The capture group of \<open>/^\/api\/orders\/(\d+)$/\<close>.\<close>

definition match_order :: "string \<Rightarrow> string option" where
  "match_order p =
     (case strip_prefix ''/api/orders/'' p of
        None \<Rightarrow> None
      | Some ds \<Rightarrow> if ds \<noteq> [] \<and> list_all is_digit ds then Some ds else None)"

definition digit_val :: "char \<Rightarrow> nat" where
  "digit_val c = of_char c - 48"

text \<open>
  A JavaScript number as \<open>parseInt\<close> can return it on a string of decimal digits: a
  non-negative integer that a double holds exactly, or \<open>Infinity\<close>.
\<close>

datatype number = Finite nat | Infinity

definition digits_value :: "string \<Rightarrow> nat" where
  "digits_value ds = foldl (\<lambda>a c. 10 * a + digit_val c) 0 ds"

text \<open>
  The conversion of an integer to the nearest double, ties to the even significand.
  \<open>excess_bits n\<close> is the number of low bits of \<open>n\<close> that do not fit the 53 bits of
  the significand; below \<open>2^53\<close> the conversion is exact, from \<open>2^1024\<close> on the
  result is \<open>Infinity\<close>.
\<close>

function excess_bits :: "nat \<Rightarrow> nat" where
  "excess_bits n = (if n < 2 ^ 53 then 0 else Suc (excess_bits (n div 2)))"
  by pat_completeness auto
termination
  by (relation "measure id") auto

definition to_double :: "nat \<Rightarrow> number" where
  "to_double n =
     (let k = excess_bits n;
          q = n div 2 ^ k;
          r = n mod 2 ^ k;
          m = (if 2 ^ k < 2 * r \<or> (2 * r = 2 ^ k \<and> odd q) then q + 1 else q)
      in if m * 2 ^ k < 2 ^ 1024 then Finite (m * 2 ^ k) else Infinity)"

text \<open>
  \<open>parseInt\<close> on a string of decimal digits: the number the digits denote, as a
  double. So \<open>9007199254740993\<close> reads as \<open>9007199254740992\<close>. (ECMAScript lets an
  engine approximate the digits after the twentieth; the value here is the correctly
  rounded one.)
\<close>

definition parseInt :: "string \<Rightarrow> number" where
  "parseInt ds = to_double (digits_value ds)"

text \<open>
  \<open>o.id === id\<close> for the number \<open>id\<close> that \<open>parseInt\<close> returned. The stored
  collection went through \<open>JSON.stringify\<close>, which writes \<open>null\<close> for
  \<open>Infinity\<close>, so no stored id equals \<open>Infinity\<close>.
\<close>

definition has_id :: "number \<Rightarrow> obj \<Rightarrow> bool" where
  "has_id v ord =
     (case v of Finite n \<Rightarrow> ord ''id'' = Some (JNum (of_nat n)) | Infinity \<Rightarrow> False)"

fun findIndex :: "('a \<Rightarrow> bool) \<Rightarrow> 'a list \<Rightarrow> nat option" where
  "findIndex P [] = None"
| "findIndex P (x # xs) = (if P x then Some 0 else map_option Suc (findIndex P xs))"

section \<open>The key-value handler with \<open>parseBody\<close>\<close>

text \<open>
  \<open>handler\<close> of the first module of \<open>src/unnamed/part_000\<close>; the second module of
  \<open>src/api/index.js\<close> is the same code apart from two flags of the health check.
  Each route below is one \<open>if\<close> block of the source; a route returns the response
  and the store as the request leaves it.
\<close>

definition err :: "string \<Rightarrow> rbody" where
  "err m = Json [''error'' \<mapsto> JStr m]"

definition msg :: "string \<Rightarrow> rbody" where
  "msg m = Json [''message'' \<mapsto> JStr m]"

definition internal_error :: "env \<Rightarrow> rbody" where
  "internal_error e =
     Json ([''error'' \<mapsto> JStr ''Internal server error'',
            ''message'' \<mapsto> JStr (error_message e)]
           (''stack'' := map_option JStr (error_stack e)))"

definition health :: "env \<Rightarrow> rbody" where
  "health e =
     Json [''status'' \<mapsto> JStr ''OK'',
           ''timestamp'' \<mapsto> JStr (toISOString e),
           ''storage'' \<mapsto> JStr ''Vercel KV'',
           ''redisUrl'' \<mapsto> JBool (has_REDIS_URL e),
           ''kvUrl'' \<mapsto> JBool (has_kvUrl e),
           ''kvToken'' \<mapsto> JBool (has_kvToken e)]"

definition newOrder :: "env \<Rightarrow> json \<Rightarrow> obj" where
  "newOrder e b =
     [''id'' \<mapsto> JNum (of_int (Date_now e)),
      ''items'' \<mapsto> or_default (props b ''items'') (JArr []),
      ''total'' \<mapsto> or_default (props b ''total'') (JNum 0),
      ''type'' \<mapsto> or_default (props b ''type'') (JStr ''eat''),
      ''customerName'' \<mapsto> or_default (props b ''customerName'') (JStr ''''),
      ''customerPhone'' \<mapsto> or_default (props b ''customerPhone'') (JStr ''''),
      ''timestamp'' \<mapsto> or_default (props b ''timestamp'') (JStr (toLocaleTimeString e)),
      ''date'' \<mapsto> or_default (props b ''date'') (JStr (toLocaleDateString e)),
      ''status'' \<mapsto> JStr ''pending'',
      ''createdAt'' \<mapsto> JStr (toISOString e)]"

text \<open>
  \<open>POST /api/orders\<close>. Reading \<open>body.items\<close> of \<open>null\<close> throws a
  \<open>TypeError\<close>, which the handler's outer \<open>catch\<close> turns into a 500.
\<close>

definition post_orders :: "env \<Rightarrow> request \<Rightarrow> store \<Rightarrow> response \<times> store" where
  "post_orders e req s =
     (let b = parseBody e req; orders = readOrders e s in
      if b = JNull then ((500, internal_error e), s)
      else
        let orders' = orders @ [newOrder e b];
            (saved, s') = writeOrders e s orders'
        in if \<not> saved then ((500, err ''Failed to save order''), s')
           else ((201, Json (newOrder e b)), s'))"

definition get_order :: "env \<Rightarrow> number \<Rightarrow> store \<Rightarrow> response \<times> store" where
  "get_order e n s =
     (case find (has_id n) (readOrders e s) of
        None \<Rightarrow> ((404, err ''Order not found''), s)
      | Some ord \<Rightarrow> ((200, Json ord), s))"

text \<open>
  \<open>{...orders[orderIndex], ...body, updatedAt: ...}\<close>, with \<open>bp\<close> the properties the
  spread of the body copies.
\<close>

definition merge :: "env \<Rightarrow> obj \<Rightarrow> obj \<Rightarrow> obj" where
  "merge e ord bp = (ord ++ bp)(''updatedAt'' \<mapsto> JStr (toISOString e))"

definition patch_order :: "env \<Rightarrow> number \<Rightarrow> obj \<Rightarrow> store \<Rightarrow> response \<times> store" where
  "patch_order e n b s =
     (let orders = readOrders e s in
      case findIndex (has_id n) orders of
        None \<Rightarrow> ((404, err ''Order not found''), s)
      | Some i \<Rightarrow>
          let orders' = orders[i := merge e (orders ! i) b];
              (saved, s') = writeOrders e s orders'
          in if \<not> saved then ((500, err ''Failed to update order''), s')
             else ((200, Json (orders' ! i)), s'))"

definition delete_order :: "env \<Rightarrow> number \<Rightarrow> store \<Rightarrow> response \<times> store" where
  "delete_order e n s =
     (let orders = readOrders e s;
          filteredOrders = filter (\<lambda>ord. \<not> has_id n ord) orders
      in if length orders = length filteredOrders
         then ((404, err ''Order not found''), s)
         else
           let (saved, s') = writeOrders e s filteredOrders
           in if \<not> saved then ((500, err ''Failed to delete order''), s')
              else ((200, msg ''Order deleted successfully''), s'))"

text \<open>\<open>DELETE /api/orders\<close>: the result of \<open>writeOrders\<close> is not looked at.\<close>

definition clear_orders :: "env \<Rightarrow> string \<Rightarrow> store \<Rightarrow> response \<times> store" where
  "clear_orders e m s =
     (let (saved, s') = writeOrders e s [] in ((200, msg m), s'))"

definition route_not_found :: "string \<Rightarrow> string \<Rightarrow> rbody" where
  "route_not_found p m =
     Json [''error'' \<mapsto> JStr ''Route not found'', ''path'' \<mapsto> JStr p, ''method'' \<mapsto> JStr m]"

definition handler :: "env \<Rightarrow> request \<Rightarrow> store \<Rightarrow> response \<times> store" where
  "handler e req s =
     (if req_method req = ''OPTIONS'' then ((200, End), s)
      else
        let m = req_method req; path = path_of (url req) in
        if m = ''GET'' \<and> (path = ''/api'' \<or> path = ''/api/health'' \<or> path = ''/'')
        then ((200, health e), s)
        else if m = ''GET'' \<and> path = ''/api/orders''
        then ((200, Json_list (readOrders e s)), s)
        else if m = ''POST'' \<and> path = ''/api/orders''
        then post_orders e req s
        else if m = ''GET'' \<and> match_order path \<noteq> None
        then get_order e (parseInt (the (match_order path))) s
        else if m = ''PATCH'' \<and> match_order path \<noteq> None
        then patch_order e (parseInt (the (match_order path))) (props (parseBody e req)) s
        else if m = ''DELETE'' \<and> match_order path \<noteq> None
        then delete_order e (parseInt (the (match_order path))) s
        else if m = ''DELETE'' \<and> path = ''/api/orders''
        then clear_orders e ''All orders cleared'' s
        else ((404, route_not_found path m), s))"

section \<open>The handlers that spread \<open>req.body\<close>\<close>

text \<open>
  The first module of \<open>src/api/index.js\<close> (\<open>module.exports = async (req, res)\<close>)
  and the Express routes of \<open>src/server.js\<close> take the body the framework parsed and
  spread it into the new order: no default is applied, and a body that carries \<open>id\<close>
  replaces the clock value.
\<close>

definition spread :: "json option \<Rightarrow> obj" where
  "spread v = (case v of None \<Rightarrow> Map.empty | Some x \<Rightarrow> props x)"

definition newOrder_spread :: "env \<Rightarrow> json option \<Rightarrow> obj" where
  "newOrder_spread e b =
     ([''id'' \<mapsto> JNum (of_int (Date_now e))] ++ spread b)
       (''status'' \<mapsto> JStr ''pending'', ''createdAt'' \<mapsto> JStr (toISOString e))"

definition post_orders_spread :: "env \<Rightarrow> request \<Rightarrow> store \<Rightarrow> response \<times> store" where
  "post_orders_spread e req s =
     (let orders = readOrders e s;
          orders' = orders @ [newOrder_spread e (body req)];
          (saved, s') = writeOrders e s orders'
      in if \<not> saved then ((500, err ''Failed to save order''), s')
         else ((201, Json (newOrder_spread e (body req))), s'))"

definition health_commonjs :: "env \<Rightarrow> rbody" where
  "health_commonjs e =
     Json [''status'' \<mapsto> JStr ''OK'',
           ''timestamp'' \<mapsto> JStr (toISOString e),
           ''storage'' \<mapsto> JStr ''Vercel KV'']"

text \<open>\<open>path.split('/').pop()\<close>: what follows the last slash.\<close>

definition last_segment :: "string \<Rightarrow> string" where
  "last_segment p = rev (takeWhile (\<lambda>c. c \<noteq> CHR ''/'') (rev p))"

definition handler_commonjs :: "env \<Rightarrow> request \<Rightarrow> store \<Rightarrow> response \<times> store" where
  "handler_commonjs e req s =
     (if req_method req = ''OPTIONS'' then ((200, End), s)
      else
        let m = req_method req; path = path_of (url req) in
        if m = ''GET'' \<and> (path = ''/api'' \<or> path = ''/api/health'')
        then ((200, health_commonjs e), s)
        else if m = ''GET'' \<and> path = ''/api/orders''
        then ((200, Json_list (readOrders e s)), s)
        else if m = ''POST'' \<and> path = ''/api/orders''
        then post_orders_spread e req s
        else if m = ''GET'' \<and> match_order path \<noteq> None
        then get_order e (parseInt (last_segment path)) s
        else if m = ''PATCH'' \<and> match_order path \<noteq> None
        then patch_order e (parseInt (last_segment path)) (spread (body req)) s
        else if m = ''DELETE'' \<and> match_order path \<noteq> None
        then delete_order e (parseInt (last_segment path)) s
        else if m = ''DELETE'' \<and> path = ''/api/orders''
        then clear_orders e ''All orders cleared successfully'' s
        else ((404, err ''Not found''), s))"

text \<open>
  \<open>app.post('/api/orders')\<close> and \<open>app.delete('/api/orders')\<close> of
  \<open>src/server.js\<close>. Their \<open>catch\<close> blocks answer 500, but nothing in the
  \<open>try\<close> blocks throws: \<open>readOrders\<close> and \<open>writeOrders\<close> catch the
  store's errors themselves.
\<close>

definition app_post_api_orders :: "env \<Rightarrow> request \<Rightarrow> store \<Rightarrow> response \<times> store" where
  "app_post_api_orders e req s =
     (let orders = readOrders e s;
          orders' = orders @ [newOrder_spread e (body req)];
          (saved, s') = writeOrders e s orders'
      in if \<not> saved then ((500, err ''Failed to save order''), s')
         else ((201, Json (newOrder_spread e (body req))), s'))"

definition app_delete_api_orders :: "env \<Rightarrow> request \<Rightarrow> store \<Rightarrow> response \<times> store" where
  "app_delete_api_orders e req s =
     (let (saved, s') = writeOrders e s [] in
      ((200, msg ''All orders cleared successfully''), s'))"

section \<open>Observations on responses and collections\<close>

definition status_of :: "response \<times> store \<Rightarrow> nat" where
  "status_of r = fst (fst r)"

definition body_of :: "response \<times> store \<Rightarrow> rbody" where
  "body_of r = snd (fst r)"

text \<open>Property \<open>k\<close> of an object body; \<open>None\<close> when absent or no object was sent.\<close>

definition field_of :: "response \<times> store \<Rightarrow> string \<Rightarrow> json option" where
  "field_of r k = (case body_of r of Json ord \<Rightarrow> ord k | _ \<Rightarrow> None)"

definition ids :: "obj list \<Rightarrow> json option list" where
  "ids os = map (\<lambda>ord. ord ''id'') os"

definition unique_ids :: "obj list \<Rightarrow> bool" where
  "unique_ids os = distinct (ids os)"

text \<open>
  The spec's "later than" on two timestamps as the handlers store them: both are
  strings in the fixed-width format of \<open>toISOString\<close>, which JavaScript compares
  code unit by code unit.
\<close>

fun str_less :: "string \<Rightarrow> string \<Rightarrow> bool" where
  "str_less [] [] = False"
| "str_less [] (y # ys) = True"
| "str_less (x # xs) [] = False"
| "str_less (x # xs) (y # ys) =
     ((of_char x :: nat) < of_char y \<or> (x = y \<and> str_less xs ys))"

definition later_than :: "json option \<Rightarrow> json option \<Rightarrow> bool" where
  "later_than a b =
     (case (a, b) of (Some (JStr x), Some (JStr y)) \<Rightarrow> str_less y x | _ \<Rightarrow> False)"

text \<open>
  The order a create request yields when the body supplies nothing: every client field
  at its default, the id and the three time fields from the clock.
\<close>

definition default_order :: "env \<Rightarrow> obj" where
  "default_order e =
     [''id'' \<mapsto> JNum (of_int (Date_now e)),
      ''items'' \<mapsto> JArr [],
      ''total'' \<mapsto> JNum 0,
      ''type'' \<mapsto> JStr ''eat'',
      ''customerName'' \<mapsto> JStr '''',
      ''customerPhone'' \<mapsto> JStr '''',
      ''timestamp'' \<mapsto> JStr (toLocaleTimeString e),
      ''date'' \<mapsto> JStr (toLocaleDateString e),
      ''status'' \<mapsto> JStr ''pending'',
      ''createdAt'' \<mapsto> JStr (toISOString e)]"

section \<open>Sequences of requests\<close>

text \<open>
  The collections the handler can leave in the store, starting from a store that was never
  written. A step is any request; the two side conditions are what the source leaves to
  the clock and to the client: a create reads a \<open>Date.now()\<close> that is not yet the id
  of a stored order, and the body of an update carries no \<open>id\<close>.
\<close>

definition creates :: "request \<Rightarrow> bool" where
  "creates req = (req_method req = ''POST'' \<and> path_of (url req) = ''/api/orders'')"

definition updates :: "request \<Rightarrow> bool" where
  "updates req = (req_method req = ''PATCH'' \<and> match_order (path_of (url req)) \<noteq> None)"

definition fresh_clock :: "env \<Rightarrow> store \<Rightarrow> bool" where
  "fresh_clock e s = (Some (JNum (of_int (Date_now e))) \<notin> set (ids (stored s)))"

definition keeps_id :: "env \<Rightarrow> request \<Rightarrow> bool" where
  "keeps_id e req = (props (parseBody e req) ''id'' = None)"

inductive reachable :: "store \<Rightarrow> bool" where
  init: "reachable None"
| step: "reachable s \<Longrightarrow> (creates req \<longrightarrow> fresh_clock e s) \<Longrightarrow>
         (updates req \<longrightarrow> keeps_id e req) \<Longrightarrow> reachable (snd (handler e req s))"

text \<open>
  The same for the CommonJS handler, whose create takes the id from the body when the
  body carries one: the side condition of a create is that the id the new order gets is
  not yet the id of a stored order.
\<close>

definition fresh_id :: "env \<Rightarrow> request \<Rightarrow> store \<Rightarrow> bool" where
  "fresh_id e req s = (newOrder_spread e (body req) ''id'' \<notin> set (ids (stored s)))"

definition keeps_id_commonjs :: "request \<Rightarrow> bool" where
  "keeps_id_commonjs req = (spread (body req) ''id'' = None)"

inductive reachable_commonjs :: "store \<Rightarrow> bool" where
  init_commonjs: "reachable_commonjs None"
| step_commonjs: "reachable_commonjs s \<Longrightarrow> (creates req \<longrightarrow> fresh_id e req s) \<Longrightarrow>
         (updates req \<longrightarrow> keeps_id_commonjs req) \<Longrightarrow>
         reachable_commonjs (snd (handler_commonjs e req s))"

section \<open>Sample inputs\<close>

text \<open>
  \<open>env_of v\<close> is an environment in which \<open>JSON.parse\<close> yields \<open>v\<close> on the text
  of the request (\<open>None\<close>: it throws) and the store works; \<open>env0\<close> is the one in
  which the text is the empty object.
\<close>

definition env_of :: "json option \<Rightarrow> env" where
  "env_of v =
     \<lparr>Date_now = 1700000000000,
      toISOString = ''2023-11-14T22:13:20.000Z'',
      toLocaleTimeString = ''10:13:20 PM'',
      toLocaleDateString = ''11/14/2023'',
      kv_get_throws = False,
      kv_set_throws = False,
      JSON_parse = (\<lambda>t. v),
      error_message = ''Cannot read properties of null'',
      error_stack = None,
      has_REDIS_URL = False,
      has_kvUrl = False,
      has_kvToken = False\<rparr>"

definition env0 :: env where
  "env0 = env_of (Some (JObj []))"

text \<open>\<open>env0\<close> one millisecond later.\<close>

definition env_later :: env where
  "env_later =
     env0\<lparr>Date_now := 1700000000001, toISOString := ''2023-11-14T22:13:20.001Z''\<rparr>"

definition env_set_fails :: env where
  "env_set_fails = env0\<lparr>kv_set_throws := True\<rparr>"

definition env_get_fails :: env where
  "env_get_fails = env0\<lparr>kv_get_throws := True\<rparr>"

definition rq :: "string \<Rightarrow> string \<Rightarrow> string list \<Rightarrow> json option \<Rightarrow> request" where
  "rq m u cs b = \<lparr>req_method = m, url = u, chunks = cs, body = b\<rparr>"

definition ready_body :: json where
  "ready_body = JObj [(''status'', JStr ''ready'')]"

definition rename_body :: json where
  "rename_body = JObj [(''id'', JNum 2), (''createdAt'', JStr ''never'')]"

text \<open>An order created at the instant \<open>env0\<close> reads, and a second one under the same id.\<close>

definition order1 :: obj where
  "order1 =
     [''id'' \<mapsto> JNum 1,
      ''total'' \<mapsto> JNum 5,
      ''status'' \<mapsto> JStr ''pending'',
      ''createdAt'' \<mapsto> JStr ''2023-11-14T22:13:20.000Z'']"

definition order1b :: obj where
  "order1b = [''id'' \<mapsto> JNum 1, ''status'' \<mapsto> JStr ''ready'']"

definition order7 :: obj where
  "order7 = [''id'' \<mapsto> JNum 7, ''status'' \<mapsto> JStr ''pending'']"

section \<open>Routing and searching\<close>

subsection \<open>Routing\<close>

lemma strip_prefix_Some: "strip_prefix pre t = Some r \<Longrightarrow> t = pre @ r"
  by (induction pre t rule: strip_prefix.induct) (auto split: if_splits)

lemma match_order_Some:
  assumes "match_order p = Some ds"
  shows "p = ''/api/orders/'' @ ds" and "ds \<noteq> []" and "list_all is_digit ds"
  using assms strip_prefix_Some [of "''/api/orders/''" p]
  by (auto simp: match_order_def split: option.splits if_splits)

lemma match_order_fixed_paths:
  assumes "match_order p = Some ds"
  shows "p \<noteq> ''/api''" and "p \<noteq> ''/api/health''" and "p \<noteq> ''/''" and "p \<noteq> ''/api/orders''"
  using match_order_Some [OF assms] by auto

lemma is_digit_not_slash: "is_digit c \<Longrightarrow> c \<noteq> CHR ''/''"
  by (auto simp: is_digit_def)

lemma last_segment_match:
  assumes "match_order p = Some ds"
  shows "last_segment p = ds"
proof -
  have p: "p = ''/api/orders/'' @ ds" and d: "list_all is_digit ds"
    using match_order_Some [OF assms] by simp_all
  have "c \<noteq> CHR ''/''" if "c \<in> set (rev ds)" for c
    using that d is_digit_not_slash by (auto simp: list_all_iff)
  then have "takeWhile (\<lambda>c. c \<noteq> CHR ''/'') (rev ds @ rev ''/api/orders/'') =
      rev ds @ takeWhile (\<lambda>c. c \<noteq> CHR ''/'') (rev ''/api/orders/'')"
    by (rule takeWhile_append2)
  then have "takeWhile (\<lambda>c. c \<noteq> CHR ''/'') (rev p) = rev ds"
    by (simp add: p)
  then show ?thesis
    by (simp add: last_segment_def)
qed

lemma handler_list:
  "req_method req = ''GET'' \<Longrightarrow> path_of (url req) = ''/api/orders'' \<Longrightarrow>
   handler e req s = ((200, Json_list (readOrders e s)), s)"
  by (simp add: handler_def)

lemma handler_commonjs_list:
  "req_method req = ''GET'' \<Longrightarrow> path_of (url req) = ''/api/orders'' \<Longrightarrow>
   handler_commonjs e req s = ((200, Json_list (readOrders e s)), s)"
  by (simp add: handler_commonjs_def)

lemma handler_post:
  "req_method req = ''POST'' \<Longrightarrow> path_of (url req) = ''/api/orders'' \<Longrightarrow>
   handler e req s = post_orders e req s"
  by (simp add: handler_def)

lemma handler_clear:
  "req_method req = ''DELETE'' \<Longrightarrow> path_of (url req) = ''/api/orders'' \<Longrightarrow>
   handler e req s = clear_orders e ''All orders cleared'' s"
  by (simp add: handler_def match_order_def)

lemma handler_commonjs_clear:
  "req_method req = ''DELETE'' \<Longrightarrow> path_of (url req) = ''/api/orders'' \<Longrightarrow>
   handler_commonjs e req s = clear_orders e ''All orders cleared successfully'' s"
  by (simp add: handler_commonjs_def match_order_def)

lemma handler_get_order:
  assumes "req_method req = ''GET''" and "match_order (path_of (url req)) = Some ds"
  shows "handler e req s = get_order e (parseInt ds) s"
  using assms match_order_fixed_paths [OF assms(2)] by (simp add: handler_def)

lemma handler_patch_order:
  assumes "req_method req = ''PATCH''" and "match_order (path_of (url req)) = Some ds"
  shows "handler e req s = patch_order e (parseInt ds) (props (parseBody e req)) s"
  using assms by (simp add: handler_def)

lemma handler_delete_order:
  assumes "req_method req = ''DELETE''" and "match_order (path_of (url req)) = Some ds"
  shows "handler e req s = delete_order e (parseInt ds) s"
  using assms by (simp add: handler_def)

lemma handler_commonjs_delete_order:
  assumes "req_method req = ''DELETE''" and "match_order (path_of (url req)) = Some ds"
  shows "handler_commonjs e req s = delete_order e (parseInt ds) s"
  using assms last_segment_match [OF assms(2)] by (simp add: handler_commonjs_def)

subsection \<open>Reading the id\<close>

lemma to_double_exact:
  assumes "n < 2 ^ 53"
  shows "to_double n = Finite n"
proof -
  have "(2::nat) ^ 53 \<le> 2 ^ 1024"
    by (rule power_increasing) simp_all
  with assms have "n < 2 ^ 1024" by linarith
  with assms show ?thesis by (simp add: to_double_def)
qed

lemma parseInt_1: "parseInt ''1'' = Finite 1"
  by (simp add: parseInt_def digits_value_def digit_val_def to_double_exact)

lemma parseInt_7: "parseInt ''7'' = Finite 7"
  by (simp add: parseInt_def digits_value_def digit_val_def to_double_exact)


text \<open>Above \<open>2^53\<close> the digits are rounded: \<open>2^53 + 1\<close> reads as \<open>2^53\<close>.\<close>

lemma parseInt_rounds: "parseInt ''9007199254740993'' = Finite 9007199254740992"
proof -
  have "digits_value ''9007199254740993'' = 9007199254740993"
    by (simp add: digits_value_def digit_val_def)
  then show ?thesis
    by (simp add: parseInt_def to_double_def Let_def)
qed

subsection \<open>Searching the collection\<close>


lemma findIndex_Some:
  "findIndex P xs = Some i \<Longrightarrow> i < length xs \<and> P (xs ! i) \<and> (\<forall>j < i. \<not> P (xs ! j))"
proof (induction xs arbitrary: i)
  case Nil
  then show ?case by simp
next
  case (Cons x xs)
  show ?case
  proof (cases "P x")
    case True
    with Cons.prems show ?thesis by simp
  next
    case False
    with Cons.prems obtain k where k: "findIndex P xs = Some k" and i: "i = Suc k"
      by auto
    from Cons.IH [OF k] False show ?thesis
      by (auto simp: i less_Suc_eq_0_disj)
  qed
qed

lemma filter_keeps_length: "length xs = length (filter P xs) \<longleftrightarrow> (\<forall>x \<in> set xs. P x)"
proof
  assume "length xs = length (filter P xs)"
  then have "filter P xs = xs"
    by (metis length_filter_less less_irrefl filter_True)
  then show "\<forall>x \<in> set xs. P x"
    by (metis filter_id_conv)
next
  assume "\<forall>x \<in> set xs. P x"
  then show "length xs = length (filter P xs)" by simp
qed


section \<open>Reading and listing\<close>

text \<open>
  C6. When \<open>kv.get\<close> throws, \<open>readOrders\<close> catches the error and yields the empty
  array, so \<open>GET /api/orders\<close> answers 200 with the empty sequence and the caller sees
  no error. This holds of the CommonJS handler of \<open>src/api/index.js\<close> and of the
  \<open>parseBody\<close> handler alike; the store is left as it was.
\<close>

theorem list_survives_read_failure:
  assumes "kv_get_throws e"
    and "req_method req = ''GET''"
    and "path_of (url req) = ''/api/orders''"
  shows "handler_commonjs e req s = ((200, Json_list []), s) \<and>
         handler e req s = ((200, Json_list []), s)"
  using assms by (simp add: handler_list handler_commonjs_list readOrders_def)

theorem list_survives_read_failure_witness:
  "kv_get_throws env_get_fails \<and>
   req_method (rq ''GET'' ''/api/orders?all=1'' [] None) = ''GET'' \<and>
   path_of (url (rq ''GET'' ''/api/orders?all=1'' [] None)) = ''/api/orders'' \<and>
   handler_commonjs env_get_fails (rq ''GET'' ''/api/orders?all=1'' [] None) (Some [order1])
     = ((200, Json_list []), Some [order1]) \<and>
   handler env_get_fails (rq ''GET'' ''/api/orders?all=1'' [] None) (Some [order1])
     = ((200, Json_list []), Some [order1])"
proof -
  have a: "kv_get_throws env_get_fails"
    by (simp add: env_get_fails_def env0_def env_of_def)
  have b: "req_method (rq ''GET'' ''/api/orders?all=1'' [] None) = ''GET''"
    by (simp add: rq_def)
  have c: "path_of (url (rq ''GET'' ''/api/orders?all=1'' [] None)) = ''/api/orders''"
    by (simp add: rq_def path_of_def)
  from list_survives_read_failure [OF a b c, of "Some [order1]"] a b c
  show ?thesis by blast
qed

section \<open>Requests for an id that is not stored\<close>




text \<open>
  The id of the path is compared as the double \<open>parseInt\<close> returns: a request for
  \<open>9007199254740993\<close> finds the order whose id is \<open>9007199254740992\<close>.
\<close>

lemma rounded_id_is_found:
  "handler env0 (rq ''GET'' ''/api/orders/9007199254740993'' [] None)
     (Some [[''id'' \<mapsto> JNum 9007199254740992]])
   = ((200, Json [''id'' \<mapsto> JNum 9007199254740992]),
      Some [[''id'' \<mapsto> JNum 9007199254740992]])"
proof -
  let ?req = "rq ''GET'' ''/api/orders/9007199254740993'' [] None"
  have a: "req_method ?req = ''GET''"
    by (simp add: rq_def)
  have b: "match_order (path_of (url ?req)) = Some ''9007199254740993''"
    by (simp add: rq_def path_of_def match_order_def is_digit_def)
  have "handler env0 ?req s = get_order env0 (parseInt ''9007199254740993'') s" for s
    using a b by (rule handler_get_order)
  then show ?thesis
    by (simp add: parseInt_rounds get_order_def readOrders_def stored_def has_id_def
        env0_def env_of_def)
qed



section \<open>Clearing the collection\<close>

lemma clear_orders_ok:
  "\<not> kv_set_throws e \<Longrightarrow> clear_orders e m s = ((200, msg m), Some [])"
  by (simp add: clear_orders_def writeOrders_def)

text \<open>
  C9, as the code has it. While the store accepts writes, clearing is idempotent in both
  key-value handlers
  (\<open>h\<close> is either of them): each of two consecutive \<open>DELETE /api/orders\<close> answers 200
  with a \<open>message\<close>, the second leaves the store as the first left it, and a list request
  that follows returns the empty sequence.
\<close>

theorem clear_idempotent:
  assumes "h = handler \<or> h = handler_commonjs"
    and "req_method req = ''DELETE''" and "path_of (url req) = ''/api/orders''"
    and "req_method req' = ''GET''" and "path_of (url req') = ''/api/orders''"
    and "\<not> kv_set_throws e1" and "\<not> kv_set_throws e2"
  shows "status_of (h e1 req s) = 200 \<and> field_of (h e1 req s) ''message'' \<noteq> None \<and>
         status_of (h e2 req (snd (h e1 req s))) = 200 \<and>
         field_of (h e2 req (snd (h e1 req s))) ''message'' \<noteq> None \<and>
         snd (h e2 req (snd (h e1 req s))) = snd (h e1 req s) \<and>
         fst (h e3 req' (snd (h e2 req (snd (h e1 req s))))) = (200, Json_list [])"
  using assms(1)
proof
  assume h: "h = handler"
  show ?thesis
    using assms(2-)
    by (simp add: h handler_clear handler_list clear_orders_ok status_of_def field_of_def
        body_of_def msg_def readOrders_def stored_def)
next
  assume h: "h = handler_commonjs"
  show ?thesis
    using assms(2-)
    by (simp add: h handler_commonjs_clear handler_commonjs_list clear_orders_ok status_of_def
        field_of_def body_of_def msg_def readOrders_def stored_def)
qed

theorem clear_idempotent_witness:
  "status_of (handler env0 (rq ''DELETE'' ''/api/orders'' [] None) (Some [order1, order7])) = 200 \<and>
   snd (handler env0 (rq ''DELETE'' ''/api/orders'' [] None)
          (snd (handler env0 (rq ''DELETE'' ''/api/orders'' [] None) (Some [order1, order7]))))
     = snd (handler env0 (rq ''DELETE'' ''/api/orders'' [] None) (Some [order1, order7])) \<and>
   fst (handler env0 (rq ''GET'' ''/api/orders'' [] None)
          (snd (handler env0 (rq ''DELETE'' ''/api/orders'' [] None)
             (snd (handler env0 (rq ''DELETE'' ''/api/orders'' [] None) (Some [order1, order7]))))))
     = (200, Json_list [])"
proof -
  have a: "req_method (rq ''DELETE'' ''/api/orders'' [] None) = ''DELETE''"
    and b: "path_of (url (rq ''DELETE'' ''/api/orders'' [] None)) = ''/api/orders''"
    and c: "req_method (rq ''GET'' ''/api/orders'' [] None) = ''GET''"
    and d: "path_of (url (rq ''GET'' ''/api/orders'' [] None)) = ''/api/orders''"
    and w: "\<not> kv_set_throws env0"
    by (simp_all add: rq_def path_of_def env0_def env_of_def)
  have h: "handler = handler \<or> handler = handler_commonjs" by simp
  from clear_idempotent [OF h a b c d w w, of "Some [order1, order7]" env0]
  show ?thesis by blast
qed

text \<open>
  C9 as stated fails when \<open>kv.set\<close> throws. Two clears in a row both answer 200, yet the
  list that follows still returns the stored order; and when only the first write fails,
  the store after two clears is empty while after one it is not.
\<close>

theorem clear_idempotent_counterexample:
  "status_of (handler env_set_fails (rq ''DELETE'' ''/api/orders'' [] None) (Some [order1])) = 200 \<and>
   status_of (handler env_set_fails (rq ''DELETE'' ''/api/orders'' [] None)
     (snd (handler env_set_fails (rq ''DELETE'' ''/api/orders'' [] None) (Some [order1])))) = 200 \<and>
   fst (handler env0 (rq ''GET'' ''/api/orders'' [] None)
     (snd (handler env_set_fails (rq ''DELETE'' ''/api/orders'' [] None)
        (snd (handler env_set_fails (rq ''DELETE'' ''/api/orders'' [] None) (Some [order1]))))))
     = (200, Json_list [order1]) \<and>
   fst (handler env0 (rq ''GET'' ''/api/orders'' [] None)
     (snd (handler env_set_fails (rq ''DELETE'' ''/api/orders'' [] None)
        (snd (handler env_set_fails (rq ''DELETE'' ''/api/orders'' [] None) (Some [order1]))))))
     \<noteq> (200, Json_list []) \<and>
   snd (handler env0 (rq ''DELETE'' ''/api/orders'' [] None)
     (snd (handler env_set_fails (rq ''DELETE'' ''/api/orders'' [] None) (Some [order1]))))
     \<noteq> snd (handler env_set_fails (rq ''DELETE'' ''/api/orders'' [] None) (Some [order1]))"
  by (simp add: status_of_def handler_def clear_orders_def writeOrders_def readOrders_def
      stored_def env_set_fails_def env0_def env_of_def rq_def path_of_def match_order_def)

text \<open>
  C5. \<open>DELETE /api/orders\<close> while \<open>kv.set\<close> throws: \<open>writeOrders\<close> returns
  \<open>false\<close>, the route does not look at it, and the answer is the 200 success message
  although the stored orders are all still there. The three variants agree.
\<close>

theorem clear_reports_success_on_write_failure:
  "handler env_set_fails (rq ''DELETE'' ''/api/orders'' [] None) (Some [order1])
     = ((200, msg ''All orders cleared''), Some [order1]) \<and>
   handler_commonjs env_set_fails (rq ''DELETE'' ''/api/orders'' [] None) (Some [order1])
     = ((200, msg ''All orders cleared successfully''), Some [order1]) \<and>
   app_delete_api_orders env_set_fails (rq ''DELETE'' ''/api/orders'' [] None) (Some [order1])
     = ((200, msg ''All orders cleared successfully''), Some [order1])"
  by (simp add: handler_def handler_commonjs_def app_delete_api_orders_def clear_orders_def
      writeOrders_def env_set_fails_def env0_def env_of_def rq_def path_of_def match_order_def)

section \<open>Creating and updating\<close>

lemma post_orders_saved:
  assumes "parseBody e req \<noteq> JNull" and "\<not> kv_set_throws e"
  shows "post_orders e req s =
    ((201, Json (newOrder e (parseBody e req))),
     Some (readOrders e s @ [newOrder e (parseBody e req)]))"
  using assms by (simp add: post_orders_def Let_def writeOrders_def)

lemma patch_order_saved:
  assumes "findIndex (has_id n) (readOrders e s) = Some i" and "\<not> kv_set_throws e"
  shows "patch_order e n bp s =
    ((200, Json (merge e (readOrders e s ! i) bp)),
     Some ((readOrders e s)[i := merge e (readOrders e s ! i) bp]))"
proof -
  have "i < length (readOrders e s)"
    using findIndex_Some [OF assms(1)] by simp
  then show ?thesis
    using assms by (simp add: patch_order_def Let_def writeOrders_def)
qed

lemma newOrder_empty: "newOrder e (JObj []) = default_order e"
  by (simp add: newOrder_def default_order_def or_default_def)

lemma merge_empty: "merge e ord Map.empty = ord(''updatedAt'' \<mapsto> JStr (toISOString e))"
  by (simp add: merge_def)

text \<open>
  C10. A body that \<open>JSON.parse\<close> rejects is taken for the empty object and no error is
  reported. A \<open>POST /api/orders\<close> with such a body (request \<open>req\<close>) answers 201 and
  appends the order whose fields are all defaults; a \<open>PATCH /api/orders/{id}\<close> with such
  a body (request \<open>req'\<close>) on an order that \<open>findIndex\<close> locates at \<open>i\<close>
  answers 200 and replaces that order by itself with \<open>updatedAt\<close> set, nothing else
  changing. Both are stated for a store that accepts the write.
\<close>

theorem unparseable_body:
  assumes "JSON_parse e (concat (chunks req)) = None"
    and "req_method req = ''POST''" and "path_of (url req) = ''/api/orders''"
    and "\<not> kv_set_throws e"
    and "JSON_parse e' (concat (chunks req')) = None"
    and "req_method req' = ''PATCH''" and "match_order (path_of (url req')) = Some ds"
    and "findIndex (has_id (parseInt ds)) (readOrders e' s') = Some i"
    and "\<not> kv_set_throws e'"
  shows "parseBody e req = JObj [] \<and>
         handler e req s =
           ((201, Json (default_order e)), Some (readOrders e s @ [default_order e])) \<and>
         handler e' req' s' =
           ((200, Json ((readOrders e' s' ! i)(''updatedAt'' \<mapsto> JStr (toISOString e')))),
            Some ((readOrders e' s')
                    [i := (readOrders e' s' ! i)(''updatedAt'' \<mapsto> JStr (toISOString e'))]))"
proof -
  have b: "parseBody e req = JObj []" and b': "parseBody e' req' = JObj []"
    using assms(1,5) by (simp_all add: parseBody_def)
  have "handler e req s = post_orders e req s"
    using assms(2,3) by (rule handler_post)
  also have "\<dots> = ((201, Json (default_order e)), Some (readOrders e s @ [default_order e]))"
    using post_orders_saved [of e req s] assms(4) by (simp add: b newOrder_empty)
  finally have post: "handler e req s =
      ((201, Json (default_order e)), Some (readOrders e s @ [default_order e]))" .
  have "handler e' req' s' = patch_order e' (parseInt ds) (props (parseBody e' req')) s'"
    using assms(6,7) by (rule handler_patch_order)
  also have "\<dots> = patch_order e' (parseInt ds) Map.empty s'"
    by (simp add: b')
  finally have patch: "handler e' req' s' = patch_order e' (parseInt ds) Map.empty s'" .
  show ?thesis
    using b post patch patch_order_saved [OF assms(8,9), of Map.empty]
    by (simp add: merge_empty)
qed

theorem unparseable_body_witness:
  "handler (env_of None) (rq ''POST'' ''/api/orders'' [''{oops''] None) (Some [order7]) =
     ((201, Json (default_order (env_of None))), Some [order7, default_order (env_of None)]) \<and>
   handler (env_of None) (rq ''PATCH'' ''/api/orders/7'' [''{oops''] None) (Some [order1, order7]) =
     ((200, Json (order7(''updatedAt'' \<mapsto> JStr ''2023-11-14T22:13:20.000Z''))),
      Some [order1, order7(''updatedAt'' \<mapsto> JStr ''2023-11-14T22:13:20.000Z'')])"
proof -
  let ?e = "env_of None"
  let ?post = "rq ''POST'' ''/api/orders'' [''{oops''] None"
  let ?patch = "rq ''PATCH'' ''/api/orders/7'' [''{oops''] None"
  have a1: "JSON_parse ?e (concat (chunks ?post)) = None"
    and a2: "req_method ?post = ''POST''"
    and a3: "path_of (url ?post) = ''/api/orders''"
    and a4: "\<not> kv_set_throws ?e"
    and a5: "JSON_parse ?e (concat (chunks ?patch)) = None"
    and a6: "req_method ?patch = ''PATCH''"
    by (simp_all add: env_of_def rq_def path_of_def)
  have a7: "match_order (path_of (url ?patch)) = Some ''7''"
    by (simp add: rq_def path_of_def match_order_def is_digit_def)
  have r: "readOrders ?e (Some [order1, order7]) = [order1, order7]"
    and r': "readOrders ?e (Some [order7]) = [order7]"
    by (simp_all add: readOrders_def stored_def env_of_def)
  have a8: "findIndex (has_id (parseInt ''7'')) (readOrders ?e (Some [order1, order7])) = Some 1"
    unfolding r by (simp add: parseInt_1 parseInt_7 has_id_def order1_def order7_def)
  have iso: "toISOString ?e = ''2023-11-14T22:13:20.000Z''"
    by (simp add: env_of_def)
  from unparseable_body [OF a1 a2 a3 a4 a5 a6 a7 a8 a4, of "Some [order7]"]
  show ?thesis by (simp add: r r' iso)
qed

lemma or_default_absent: "or_default None d = d"
  by (simp add: or_default_def)

lemma app_post_saved:
  assumes "\<not> kv_set_throws e"
  shows "app_post_api_orders e req s =
    ((201, Json (newOrder_spread e (body req))),
     Some (readOrders e s @ [newOrder_spread e (body req)]))"
  using assms by (simp add: app_post_api_orders_def Let_def writeOrders_def)

text \<open>
  C1, as the code has it. In the \<open>parseBody\<close> handler a create request whose parsed
  body \<open>b\<close> is not \<open>null\<close>, on a store that accepts the write, answers 201 with the
  order that is also appended to the collection; in that order each of \<open>items\<close>,
  \<open>total\<close>, \<open>type\<close>, \<open>customerName\<close>, \<open>customerPhone\<close> that the body lacks
  has its default, \<open>status\<close> is \<open>pending\<close> whatever the body says, and
  \<open>createdAt\<close> is the server's clock reading. The Express route of \<open>src/server.js\<close>
  answers and appends likewise and also forces \<open>status\<close> and \<open>createdAt\<close>, but it
  applies no default: every other property except \<open>id\<close> is exactly what the body
  holds, absent when the body lacks it.
\<close>

theorem create_defaults:
  assumes "req_method req = ''POST''" and "path_of (url req) = ''/api/orders''"
    and "parseBody e req = b" and "b \<noteq> JNull"
    and "\<not> kv_set_throws e"
  shows "handler e req s = ((201, Json (newOrder e b)), Some (readOrders e s @ [newOrder e b])) \<and>
         (props b ''items'' = None \<longrightarrow> newOrder e b ''items'' = Some (JArr [])) \<and>
         (props b ''total'' = None \<longrightarrow> newOrder e b ''total'' = Some (JNum 0)) \<and>
         (props b ''type'' = None \<longrightarrow> newOrder e b ''type'' = Some (JStr ''eat'')) \<and>
         (props b ''customerName'' = None \<longrightarrow> newOrder e b ''customerName'' = Some (JStr [])) \<and>
         (props b ''customerPhone'' = None \<longrightarrow> newOrder e b ''customerPhone'' = Some (JStr [])) \<and>
         newOrder e b ''status'' = Some (JStr ''pending'') \<and>
         newOrder e b ''createdAt'' = Some (JStr (toISOString e)) \<and>
         app_post_api_orders e req s =
           ((201, Json (newOrder_spread e (body req))),
            Some (readOrders e s @ [newOrder_spread e (body req)])) \<and>
         newOrder_spread e (body req) ''status'' = Some (JStr ''pending'') \<and>
         newOrder_spread e (body req) ''createdAt'' = Some (JStr (toISOString e)) \<and>
         (\<forall>k. k \<noteq> ''id'' \<and> k \<noteq> ''status'' \<and> k \<noteq> ''createdAt'' \<longrightarrow>
              newOrder_spread e (body req) k = spread (body req) k)"
proof -
  have "handler e req s = post_orders e req s"
    using assms(1,2) by (rule handler_post)
  then have h: "handler e req s =
      ((201, Json (newOrder e b)), Some (readOrders e s @ [newOrder e b]))"
    using post_orders_saved [of e req s] assms(3-5) by simp
  have d: "props b ''items'' = None \<longrightarrow> newOrder e b ''items'' = Some (JArr [])"
    "props b ''total'' = None \<longrightarrow> newOrder e b ''total'' = Some (JNum 0)"
    "props b ''type'' = None \<longrightarrow> newOrder e b ''type'' = Some (JStr ''eat'')"
    "props b ''customerName'' = None \<longrightarrow> newOrder e b ''customerName'' = Some (JStr [])"
    "props b ''customerPhone'' = None \<longrightarrow> newOrder e b ''customerPhone'' = Some (JStr [])"
    by (simp_all add: newOrder_def or_default_absent)
  have f: "newOrder e b ''status'' = Some (JStr ''pending'')"
    "newOrder e b ''createdAt'' = Some (JStr (toISOString e))"
    by (simp_all add: newOrder_def)
  have g: "newOrder_spread e (body req) ''status'' = Some (JStr ''pending'')"
    "newOrder_spread e (body req) ''createdAt'' = Some (JStr (toISOString e))"
    by (simp_all add: newOrder_spread_def)
  have k: "newOrder_spread e (body req) k = spread (body req) k"
    if "k \<noteq> ''id'' \<and> k \<noteq> ''status'' \<and> k \<noteq> ''createdAt''" for k
    using that by (simp add: newOrder_spread_def map_add_def split: option.splits)
  from h d f g k app_post_saved [OF assms(5), of req s] show ?thesis
    by blast
qed

theorem create_defaults_witness:
  "handler (env_of (Some (JObj [(''total'', JNum 8), (''status'', JStr ''done'')])))
     (rq ''POST'' ''/api/orders'' [] (Some (JObj [(''total'', JNum 8)]))) None =
     ((201, Json (newOrder (env_of (Some (JObj [(''total'', JNum 8), (''status'', JStr ''done'')])))
                    (JObj [(''total'', JNum 8), (''status'', JStr ''done'')]))),
      Some [newOrder (env_of (Some (JObj [(''total'', JNum 8), (''status'', JStr ''done'')])))
                    (JObj [(''total'', JNum 8), (''status'', JStr ''done'')])]) \<and>
   newOrder (env_of (Some (JObj [(''total'', JNum 8), (''status'', JStr ''done'')])))
     (JObj [(''total'', JNum 8), (''status'', JStr ''done'')]) ''items'' = Some (JArr []) \<and>
   newOrder (env_of (Some (JObj [(''total'', JNum 8), (''status'', JStr ''done'')])))
     (JObj [(''total'', JNum 8), (''status'', JStr ''done'')]) ''status'' = Some (JStr ''pending'') \<and>
   newOrder_spread (env_of (Some (JObj [(''total'', JNum 8), (''status'', JStr ''done'')])))
     (Some (JObj [(''total'', JNum 8)])) ''total'' = Some (JNum 8)"
proof -
  let ?b = "JObj [(''total'', JNum 8), (''status'', JStr ''done'')]"
  let ?e = "env_of (Some ?b)"
  let ?req = "rq ''POST'' ''/api/orders'' [] (Some (JObj [(''total'', JNum 8)]))"
  have a1: "req_method ?req = ''POST''" and a2: "path_of (url ?req) = ''/api/orders''"
    and a3: "parseBody ?e ?req = ?b" and a4: "?b \<noteq> JNull" and a5: "\<not> kv_set_throws ?e"
    by (simp_all add: rq_def path_of_def parseBody_def env_of_def)
  have r: "readOrders ?e None = []"
    by (simp add: readOrders_def stored_def)
  have p: "props ?b ''items'' = None" by simp
  have q: "spread (body ?req) ''total'' = Some (JNum 8)"
    by (simp add: spread_def rq_def)
  have t: "body ?req = Some (JObj [(''total'', JNum 8)])"
    by (simp add: rq_def)
  from create_defaults [OF a1 a2 a3 a4 a5, of None] p q
  show ?thesis unfolding r t by simp
qed

text \<open>
  C1 as stated fails on the Express route: a create request with the empty object as
  body answers 201 with an order that has no \<open>items\<close> and no \<open>total\<close> at all.
\<close>

theorem create_defaults_counterexample:
  "status_of (app_post_api_orders env0 (rq ''POST'' ''/api/orders'' [] (Some (JObj []))) None) = 201 \<and>
   field_of (app_post_api_orders env0 (rq ''POST'' ''/api/orders'' [] (Some (JObj []))) None) ''items''
     \<noteq> Some (JArr []) \<and>
   field_of (app_post_api_orders env0 (rq ''POST'' ''/api/orders'' [] (Some (JObj []))) None) ''total''
     \<noteq> Some (JNum 0)"
  by (simp add: status_of_def field_of_def body_of_def app_post_api_orders_def Let_def
      writeOrders_def readOrders_def stored_def newOrder_spread_def spread_def env0_def
      env_of_def rq_def)

text \<open>
  C2. \<open>PATCH /api/orders/1\<close> with the body \<open>{id: 2, createdAt: "never"}\<close> on a store
  holding \<open>order1\<close>: the spread of the body comes after the spread of the order, so
  the stored order now has id 2 and \<open>createdAt\<close> \<open>never\<close>. Both key-value handlers.
\<close>

theorem patch_overwrites_id_and_createdAt:
  "status_of (handler (env_of (Some rename_body)) (rq ''PATCH'' ''/api/orders/1'' [] None)
     (Some [order1])) = 200 \<and>
   map (\<lambda>ord. (ord ''id'', ord ''createdAt''))
     (stored (snd (handler (env_of (Some rename_body)) (rq ''PATCH'' ''/api/orders/1'' [] None)
        (Some [order1]))))
     = [(Some (JNum 2), Some (JStr ''never''))] \<and>
   order1 ''id'' = Some (JNum 1) \<and>
   order1 ''createdAt'' = Some (JStr ''2023-11-14T22:13:20.000Z'') \<and>
   map (\<lambda>ord. (ord ''id'', ord ''createdAt''))
     (stored (snd (handler_commonjs env0 (rq ''PATCH'' ''/api/orders/1'' [] (Some rename_body))
        (Some [order1]))))
     = [(Some (JNum 2), Some (JStr ''never''))]"
  by (simp add: status_of_def handler_def handler_commonjs_def patch_order_def Let_def
      writeOrders_def readOrders_def stored_def merge_def spread_def parseBody_def
      env0_def env_of_def rq_def path_of_def match_order_def is_digit_def parseInt_1 parseInt_7 last_segment_def has_id_def order1_def rename_body_def)

section \<open>Updating the status\<close>

lemma props_ready: "props ready_body = [''status'' \<mapsto> JStr ''ready'']"
  by (simp add: ready_body_def)

lemma merge_ready:
  "merge e ord [''status'' \<mapsto> JStr ''ready''] =
     ord(''status'' \<mapsto> JStr ''ready'', ''updatedAt'' \<mapsto> JStr (toISOString e))"
  by (simp add: merge_def)

text \<open>
  C3, as the code has it. Let the store be readable and writable, let the parsed body be
  \<open>{status: "ready"}\<close>, and let \<open>findIndex\<close> locate the id at position \<open>i\<close> (the
  first order with that id). Then the handler answers 200 with the updated order, and
  the new collection is the old one with position \<open>i\<close> replaced: there \<open>status\<close> is
  \<open>ready\<close>, \<open>updatedAt\<close> is the clock reading of this request, every other property
  is what it was, and every other position holds the order it held. Nothing relates
  that clock reading to the order's \<open>createdAt\<close>: \<open>updatedAt\<close> is later exactly
  when the clock reading is.
\<close>

theorem patch_status_ready:
  assumes "req_method req = ''PATCH''" and "match_order (path_of (url req)) = Some ds"
    and "parseBody e req = ready_body"
    and "\<not> kv_get_throws e" and "\<not> kv_set_throws e"
    and "findIndex (has_id (parseInt ds)) (stored s) = Some i"
  shows "handler e req s =
           ((200, Json ((stored s ! i)(''status'' \<mapsto> JStr ''ready'',
                                     ''updatedAt'' \<mapsto> JStr (toISOString e)))),
            Some ((stored s)[i := (stored s ! i)(''status'' \<mapsto> JStr ''ready'',
                                     ''updatedAt'' \<mapsto> JStr (toISOString e))])) \<and>
         i < length (stored s) \<and> has_id (parseInt ds) (stored s ! i) \<and>
         length (stored (snd (handler e req s))) = length (stored s) \<and>
         (stored (snd (handler e req s)) ! i) ''status'' = Some (JStr ''ready'') \<and>
         (stored (snd (handler e req s)) ! i) ''updatedAt'' = Some (JStr (toISOString e)) \<and>
         (\<forall>k. k \<noteq> ''status'' \<and> k \<noteq> ''updatedAt'' \<longrightarrow>
              (stored (snd (handler e req s)) ! i) k = (stored s ! i) k) \<and>
         (\<forall>j. j \<noteq> i \<longrightarrow> stored (snd (handler e req s)) ! j = stored s ! j) \<and>
         (later_than ((stored (snd (handler e req s)) ! i) ''updatedAt'')
                     ((stored (snd (handler e req s)) ! i) ''createdAt'')
            \<longleftrightarrow> later_than (Some (JStr (toISOString e))) ((stored s ! i) ''createdAt''))"
proof -
  let ?new = "(stored s ! i)(''status'' \<mapsto> JStr ''ready'',
      ''updatedAt'' \<mapsto> JStr (toISOString e))"
  have r: "readOrders e s = stored s"
    using assms(4) by (simp add: readOrders_def)
  have i: "i < length (stored s)" and hit: "has_id (parseInt ds) (stored s ! i)"
    using findIndex_Some [OF assms(6)] by simp_all
  have "handler e req s = patch_order e (parseInt ds) (props (parseBody e req)) s"
    using assms(1,2) by (rule handler_patch_order)
  also have "\<dots> = ((200, Json ?new), Some ((stored s)[i := ?new]))"
    using patch_order_saved [of "parseInt ds" e s i "props ready_body"] assms(3,5,6)
    by (simp add: r props_ready merge_ready)
  finally have h: "handler e req s = ((200, Json ?new), Some ((stored s)[i := ?new]))" .
  have st: "stored (snd (handler e req s)) = (stored s)[i := ?new]"
    by (simp add: h stored_def)
  have at_i: "stored (snd (handler e req s)) ! i = ?new"
    using i by (simp add: st)
  have frame: "(stored (snd (handler e req s)) ! i) k = (stored s ! i) k"
    if "k \<noteq> ''status'' \<and> k \<noteq> ''updatedAt''" for k
    using that by (simp add: at_i)
  have others: "stored (snd (handler e req s)) ! j = stored s ! j" if "j \<noteq> i" for j
    using that by (simp add: st)
  have late: "later_than ((stored (snd (handler e req s)) ! i) ''updatedAt'')
                     ((stored (snd (handler e req s)) ! i) ''createdAt'')
            \<longleftrightarrow> later_than (Some (JStr (toISOString e))) ((stored s ! i) ''createdAt'')"
    by (simp add: at_i)
  have len: "length (stored (snd (handler e req s))) = length (stored s)"
    by (simp add: st)
  have vals: "(stored (snd (handler e req s)) ! i) ''status'' = Some (JStr ''ready'')"
    "(stored (snd (handler e req s)) ! i) ''updatedAt'' = Some (JStr (toISOString e))"
    by (simp_all add: at_i)
  from h i hit len vals frame others late show ?thesis
    by blast
qed

theorem patch_status_ready_witness:
  "handler (env_of (Some ready_body)) (rq ''PATCH'' ''/api/orders/7'' [] None)
     (Some [order1, order7]) =
     ((200, Json (order7(''status'' \<mapsto> JStr ''ready'',
                         ''updatedAt'' \<mapsto> JStr ''2023-11-14T22:13:20.000Z''))),
      Some [order1, order7(''status'' \<mapsto> JStr ''ready'',
                         ''updatedAt'' \<mapsto> JStr ''2023-11-14T22:13:20.000Z'')])"
proof -
  let ?e = "env_of (Some ready_body)"
  let ?req = "rq ''PATCH'' ''/api/orders/7'' [] None"
  have a1: "req_method ?req = ''PATCH''"
    and a3: "parseBody ?e ?req = ready_body"
    and a4: "\<not> kv_get_throws ?e" and a5: "\<not> kv_set_throws ?e"
    by (simp_all add: rq_def parseBody_def env_of_def)
  have a2: "match_order (path_of (url ?req)) = Some ''7''"
    by (simp add: rq_def path_of_def match_order_def is_digit_def)
  have st: "stored (Some [order1, order7]) = [order1, order7]"
    by (simp add: stored_def)
  have a6: "findIndex (has_id (parseInt ''7'')) (stored (Some [order1, order7])) = Some 1"
    unfolding st by (simp add: parseInt_1 parseInt_7 has_id_def order1_def order7_def)
  have iso: "toISOString ?e = ''2023-11-14T22:13:20.000Z''"
    by (simp add: env_of_def)
  from patch_status_ready [OF a1 a2 a3 a4 a5 a6]
  show ?thesis unfolding st iso by simp
qed

text \<open>
  C3 as stated fails on the timestamp. \<open>order1\<close> was created at the instant
  \<open>2023-11-14T22:13:20.000Z\<close>; a \<open>PATCH\<close> with \<open>{status: "ready"}\<close> that reads the
  same instant from the clock answers 200 with an order whose \<open>updatedAt\<close> equals its
  \<open>createdAt\<close>, which is not later.
\<close>

theorem patch_status_ready_counterexample:
  "status_of (handler (env_of (Some ready_body)) (rq ''PATCH'' ''/api/orders/1'' [] None)
     (Some [order1])) = 200 \<and>
   field_of (handler (env_of (Some ready_body)) (rq ''PATCH'' ''/api/orders/1'' [] None)
     (Some [order1])) ''status'' = Some (JStr ''ready'') \<and>
   field_of (handler (env_of (Some ready_body)) (rq ''PATCH'' ''/api/orders/1'' [] None)
     (Some [order1])) ''createdAt'' = Some (JStr ''2023-11-14T22:13:20.000Z'') \<and>
   field_of (handler (env_of (Some ready_body)) (rq ''PATCH'' ''/api/orders/1'' [] None)
     (Some [order1])) ''updatedAt'' = Some (JStr ''2023-11-14T22:13:20.000Z'') \<and>
   \<not> later_than
     (field_of (handler (env_of (Some ready_body)) (rq ''PATCH'' ''/api/orders/1'' [] None)
        (Some [order1])) ''updatedAt'')
     (field_of (handler (env_of (Some ready_body)) (rq ''PATCH'' ''/api/orders/1'' [] None)
        (Some [order1])) ''createdAt'')"
  by (simp add: status_of_def field_of_def body_of_def handler_def patch_order_def Let_def
      writeOrders_def readOrders_def stored_def merge_def parseBody_def later_than_def
      env_of_def rq_def path_of_def match_order_def is_digit_def parseInt_1 parseInt_7 has_id_def order1_def ready_body_def)

section \<open>Deleting one order\<close>

lemma delete_order_saved:
  assumes "\<not> kv_get_throws e" and "\<not> kv_set_throws e"
    and "ord \<in> set (stored s)" and "has_id n ord"
  shows "delete_order e n s =
    ((200, msg ''Order deleted successfully''), Some (filter (\<lambda>ord. \<not> has_id n ord) (stored s)))"
proof -
  have r: "readOrders e s = stored s"
    using assms(1) by (simp add: readOrders_def)
  have "length (stored s) \<noteq> length (filter (\<lambda>ord. \<not> has_id n ord) (stored s))"
    using assms(3,4) by (auto simp: filter_keeps_length)
  then show ?thesis
    using assms(2) by (simp add: delete_order_def Let_def r writeOrders_def)
qed

text \<open>
  C4, as the code has it. Let the store be readable and writable and let some stored order
  have the requested id. Then \<open>DELETE /api/orders/{id}\<close> answers 200 and stores the old
  collection filtered: every order with that id is gone, the orders with another id
  are all there, unchanged and in their old relative order. The length drops by the
  number of orders that had the id, which is one exactly when the id occurred once.
  Both key-value handlers (\<open>h\<close> is either of them).
\<close>

theorem delete_removes_matching:
  assumes "h = handler \<or> h = handler_commonjs"
    and "req_method req = ''DELETE''" and "match_order (path_of (url req)) = Some ds"
    and "\<not> kv_get_throws e" and "\<not> kv_set_throws e"
    and "ord \<in> set (stored s)" and "has_id (parseInt ds) ord"
  shows "h e req s =
           ((200, msg ''Order deleted successfully''),
            Some (filter (\<lambda>ord. \<not> has_id (parseInt ds) ord) (stored s))) \<and>
         list_all (\<lambda>ord. \<not> has_id (parseInt ds) ord) (stored (snd (h e req s))) \<and>
         length (stored (snd (h e req s))) + length (filter (has_id (parseInt ds)) (stored s))
           = length (stored s) \<and>
         (length (filter (has_id (parseInt ds)) (stored s)) = 1 \<longrightarrow>
            length (stored (snd (h e req s))) + 1 = length (stored s))"
proof -
  have "h e req s = delete_order e (parseInt ds) s"
    using assms(1) handler_delete_order [OF assms(2,3)]
      handler_commonjs_delete_order [OF assms(2,3)] by auto
  then have h: "h e req s =
      ((200, msg ''Order deleted successfully''),
       Some (filter (\<lambda>ord. \<not> has_id (parseInt ds) ord) (stored s)))"
    using delete_order_saved [OF assms(4-7)] by simp
  have st: "stored (snd (h e req s)) = filter (\<lambda>ord. \<not> has_id (parseInt ds) ord) (stored s)"
    by (simp add: h stored_def)
  have gone: "list_all (\<lambda>ord. \<not> has_id (parseInt ds) ord) (stored (snd (h e req s)))"
    by (simp add: st list_all_iff)
  have len: "length (stored (snd (h e req s))) +
      length (filter (has_id (parseInt ds)) (stored s)) = length (stored s)"
    using sum_length_filter_compl [of "has_id (parseInt ds)" "stored s"] by (simp add: st)
  from h gone len show ?thesis by simp
qed

theorem delete_removes_matching_witness:
  "handler env0 (rq ''DELETE'' ''/api/orders/1'' [] None) (Some [order1, order7]) =
     ((200, msg ''Order deleted successfully''), Some [order7]) \<and>
   length (stored (snd (handler env0 (rq ''DELETE'' ''/api/orders/1'' [] None)
     (Some [order1, order7])))) + 1 = length (stored (Some [order1, order7]))"
proof -
  let ?req = "rq ''DELETE'' ''/api/orders/1'' [] None"
  have h: "handler = handler \<or> handler = handler_commonjs" by simp
  have a1: "req_method ?req = ''DELETE''"
    and a3: "\<not> kv_get_throws env0" and a4: "\<not> kv_set_throws env0"
    by (simp_all add: rq_def env0_def env_of_def)
  have a2: "match_order (path_of (url ?req)) = Some ''1''"
    by (simp add: rq_def path_of_def match_order_def is_digit_def)
  have n: "parseInt ''1'' = Finite 1"
    by (rule parseInt_1)
  have st: "stored (Some [order1, order7]) = [order1, order7]"
    by (simp add: stored_def)
  have a5: "order1 \<in> set (stored (Some [order1, order7]))"
    by (simp add: st)
  have a6: "has_id (parseInt ''1'') order1"
    by (simp add: n has_id_def order1_def)
  have n7: "\<not> has_id (parseInt ''1'') order7"
    by (simp add: n has_id_def order7_def)
  have f: "filter (\<lambda>ord. \<not> has_id (parseInt ''1'') ord) [order1, order7] = [order7]"
    "filter (has_id (parseInt ''1'')) [order1, order7] = [order1]"
    using a6 n7 by simp_all
  from delete_removes_matching [OF h a1 a2 a3 a4 a5 a6]
  show ?thesis unfolding st f by (simp add: stored_def)
qed

text \<open>
  C4 as stated fails when two stored orders share the id: \<open>DELETE /api/orders/1\<close> on
  \<open>[order1, order1b, order7]\<close> answers 200 and leaves \<open>[order7]\<close>, two orders fewer.
\<close>

theorem delete_removes_matching_counterexample:
  "status_of (handler env0 (rq ''DELETE'' ''/api/orders/1'' [] None)
     (Some [order1, order1b, order7])) = 200 \<and>
   length (stored (snd (handler env0 (rq ''DELETE'' ''/api/orders/1'' [] None)
     (Some [order1, order1b, order7])))) + 1 \<noteq> length [order1, order1b, order7]"
  by (simp add: status_of_def handler_def delete_order_def Let_def writeOrders_def
      readOrders_def stored_def env0_def env_of_def rq_def path_of_def match_order_def
      is_digit_def parseInt_1 parseInt_7 has_id_def order1_def order1b_def order7_def)

section \<open>Uniqueness of ids\<close>

lemma unique_ids_Nil: "unique_ids []"
  by (simp add: unique_ids_def ids_def)

lemma unique_ids_filter: "unique_ids os \<Longrightarrow> unique_ids (filter P os)"
  by (simp add: unique_ids_def ids_def distinct_map_filter)

lemma unique_ids_append:
  "unique_ids os \<Longrightarrow> ord ''id'' \<notin> set (ids os) \<Longrightarrow> unique_ids (os @ [ord])"
  by (simp add: unique_ids_def ids_def)

lemma ids_update:
  assumes "new ''id'' = (os ! i) ''id''"
  shows "ids (os[i := new]) = ids os"
proof (cases "i < length os")
  case True
  have "ids (os[i := new]) = (ids os)[i := (ids os) ! i]"
    using True assms by (simp add: ids_def map_update)
  then show ?thesis by simp
next
  case False
  then have "os[i := new] = os" by (simp add: not_less list_update_beyond)
  then show ?thesis by simp
qed

lemma merge_keeps_id: "bp ''id'' = None \<Longrightarrow> merge e ord bp ''id'' = ord ''id''"
  by (simp add: merge_def map_add_def)

lemma readOrders_cases: "readOrders e s = [] \<or> readOrders e s = stored s"
  by (simp add: readOrders_def)

lemma unique_ids_read: "unique_ids (stored s) \<Longrightarrow> unique_ids (readOrders e s)"
  using readOrders_cases [of e s] by (auto simp: unique_ids_Nil)

lemma ids_read: "set (ids (readOrders e s)) \<subseteq> set (ids (stored s))"
  using readOrders_cases [of e s] by (auto simp: ids_def)

lemma post_orders_unique:
  assumes "unique_ids (stored s)" and "fresh_clock e s"
  shows "unique_ids (stored (snd (post_orders e req s)))"
proof -
  let ?new = "newOrder e (parseBody e req)"
  have id: "?new ''id'' = Some (JNum (of_int (Date_now e)))"
    by (simp add: newOrder_def)
  have "?new ''id'' \<notin> set (ids (readOrders e s))"
    using assms(2) ids_read [of e s] by (auto simp: fresh_clock_def id)
  then have u: "unique_ids (readOrders e s @ [?new])"
    using unique_ids_read [OF assms(1)] by (rule unique_ids_append [rotated])
  have "snd (post_orders e req s) = s \<or>
      snd (post_orders e req s) = Some (readOrders e s @ [?new])"
    by (simp add: post_orders_def Let_def writeOrders_def)
  then show ?thesis
    using u assms(1) by (auto simp: stored_def)
qed

lemma patch_order_unique:
  assumes "unique_ids (stored s)" and "bp ''id'' = None"
  shows "unique_ids (stored (snd (patch_order e n bp s)))"
proof (cases "findIndex (has_id n) (readOrders e s)")
  case None
  then show ?thesis
    using assms(1) by (simp add: patch_order_def)
next
  case (Some i)
  let ?os = "(readOrders e s)[i := merge e (readOrders e s ! i) bp]"
  have "ids ?os = ids (readOrders e s)"
    by (rule ids_update) (simp add: merge_keeps_id [of bp, OF assms(2)])
  then have u: "unique_ids ?os"
    using unique_ids_read [OF assms(1), of e] by (simp add: unique_ids_def)
  have "snd (patch_order e n bp s) = s \<or> snd (patch_order e n bp s) = Some ?os"
    by (simp add: patch_order_def Some Let_def writeOrders_def)
  then show ?thesis
    using u assms(1) by (auto simp: stored_def)
qed

lemma delete_order_unique:
  assumes "unique_ids (stored s)"
  shows "unique_ids (stored (snd (delete_order e n s)))"
proof -
  let ?os = "filter (\<lambda>ord. \<not> has_id n ord) (readOrders e s)"
  have u: "unique_ids ?os"
    using unique_ids_read [OF assms, of e] by (rule unique_ids_filter)
  have "snd (delete_order e n s) = s \<or> snd (delete_order e n s) = Some ?os"
    by (simp add: delete_order_def Let_def writeOrders_def)
  then show ?thesis
    using u assms by (auto simp: stored_def)
qed

lemma clear_orders_unique:
  assumes "unique_ids (stored s)"
  shows "unique_ids (stored (snd (clear_orders e m s)))"
proof -
  have "snd (clear_orders e m s) = s \<or> snd (clear_orders e m s) = Some []"
    by (simp add: clear_orders_def writeOrders_def)
  then show ?thesis
    using assms by (auto simp: stored_def unique_ids_Nil)
qed

lemma handler_other_methods:
  assumes "req_method req \<noteq> ''POST''" and "req_method req \<noteq> ''PATCH''"
    and "req_method req \<noteq> ''DELETE''"
  shows "snd (handler e req s) = s"
  using assms by (simp add: handler_def Let_def get_order_def split: option.splits)

lemma handler_unique:
  assumes "unique_ids (stored s)"
    and "creates req \<longrightarrow> fresh_clock e s"
    and "updates req \<longrightarrow> keeps_id e req"
  shows "unique_ids (stored (snd (handler e req s)))"
proof -
  let ?p = "path_of (url req)"
  consider (post) "req_method req = ''POST''" | (patch) "req_method req = ''PATCH''"
    | (delete) "req_method req = ''DELETE''"
    | (other) "req_method req \<noteq> ''POST''" "req_method req \<noteq> ''PATCH''"
        "req_method req \<noteq> ''DELETE''"
    by blast
  then show ?thesis
  proof cases
    case post
    show ?thesis
    proof (cases "?p = ''/api/orders''")
      case True
      then have "fresh_clock e s"
        using assms(2) post by (simp add: creates_def)
      then show ?thesis
        using assms(1) post True by (simp add: handler_post post_orders_unique)
    next
      case False
      then have "snd (handler e req s) = s"
        using post by (simp add: handler_def)
      then show ?thesis using assms(1) by simp
    qed
  next
    case patch
    show ?thesis
    proof (cases "match_order ?p")
      case None
      then have "snd (handler e req s) = s"
        using patch by (simp add: handler_def)
      then show ?thesis using assms(1) by simp
    next
      case (Some ds)
      then have "props (parseBody e req) ''id'' = None"
        using assms(3) patch by (simp add: updates_def keeps_id_def)
      then show ?thesis
        using assms(1) by (simp add: handler_patch_order [OF patch Some] patch_order_unique)
    qed
  next
    case delete
    show ?thesis
    proof (cases "match_order ?p")
      case None
      show ?thesis
      proof (cases "?p = ''/api/orders''")
        case True
        then show ?thesis
          using assms(1) delete by (simp add: handler_clear clear_orders_unique)
      next
        case False
        then have "snd (handler e req s) = s"
          using delete None by (simp add: handler_def)
        then show ?thesis using assms(1) by simp
      qed
    next
      case (Some ds)
      then show ?thesis
        using assms(1) by (simp add: handler_delete_order [OF delete Some] delete_order_unique)
    qed
  next
    case other
    then have "snd (handler e req s) = s"
      by (rule handler_other_methods)
    then show ?thesis using assms(1) by simp
  qed
qed

lemma handler_commonjs_post:
  "req_method req = ''POST'' \<Longrightarrow> path_of (url req) = ''/api/orders'' \<Longrightarrow>
   handler_commonjs e req s = post_orders_spread e req s"
  by (simp add: handler_commonjs_def)

lemma handler_commonjs_patch_order:
  assumes "req_method req = ''PATCH''" and "match_order (path_of (url req)) = Some ds"
  shows "handler_commonjs e req s = patch_order e (parseInt ds) (spread (body req)) s"
  using assms last_segment_match [OF assms(2)] by (simp add: handler_commonjs_def)

lemma handler_commonjs_other_methods:
  assumes "req_method req \<noteq> ''POST''" and "req_method req \<noteq> ''PATCH''"
    and "req_method req \<noteq> ''DELETE''"
  shows "snd (handler_commonjs e req s) = s"
  using assms by (simp add: handler_commonjs_def Let_def get_order_def split: option.splits)

lemma post_orders_spread_unique:
  assumes "unique_ids (stored s)" and "fresh_id e req s"
  shows "unique_ids (stored (snd (post_orders_spread e req s)))"
proof -
  let ?new = "newOrder_spread e (body req)"
  have "?new ''id'' \<notin> set (ids (readOrders e s))"
    using assms(2) ids_read [of e s] by (auto simp: fresh_id_def)
  then have u: "unique_ids (readOrders e s @ [?new])"
    using unique_ids_read [OF assms(1)] by (rule unique_ids_append [rotated])
  have "snd (post_orders_spread e req s) = s \<or>
      snd (post_orders_spread e req s) = Some (readOrders e s @ [?new])"
    by (simp add: post_orders_spread_def Let_def writeOrders_def)
  then show ?thesis
    using u assms(1) by (auto simp: stored_def)
qed

lemma handler_commonjs_unique:
  assumes "unique_ids (stored s)"
    and "creates req \<longrightarrow> fresh_id e req s"
    and "updates req \<longrightarrow> keeps_id_commonjs req"
  shows "unique_ids (stored (snd (handler_commonjs e req s)))"
proof -
  let ?p = "path_of (url req)"
  consider (post) "req_method req = ''POST''" | (patch) "req_method req = ''PATCH''"
    | (delete) "req_method req = ''DELETE''"
    | (other) "req_method req \<noteq> ''POST''" "req_method req \<noteq> ''PATCH''"
        "req_method req \<noteq> ''DELETE''"
    by blast
  then show ?thesis
  proof cases
    case post
    show ?thesis
    proof (cases "?p = ''/api/orders''")
      case True
      then have "fresh_id e req s"
        using assms(2) post by (simp add: creates_def)
      then show ?thesis
        using assms(1) post True
        by (simp add: handler_commonjs_post post_orders_spread_unique)
    next
      case False
      then have "snd (handler_commonjs e req s) = s"
        using post by (simp add: handler_commonjs_def)
      then show ?thesis using assms(1) by simp
    qed
  next
    case patch
    show ?thesis
    proof (cases "match_order ?p")
      case None
      then have "snd (handler_commonjs e req s) = s"
        using patch by (simp add: handler_commonjs_def)
      then show ?thesis using assms(1) by simp
    next
      case (Some ds)
      then have "spread (body req) ''id'' = None"
        using assms(3) patch by (simp add: updates_def keeps_id_commonjs_def)
      then show ?thesis
        using assms(1)
        by (simp add: handler_commonjs_patch_order [OF patch Some] patch_order_unique)
    qed
  next
    case delete
    show ?thesis
    proof (cases "match_order ?p")
      case None
      show ?thesis
      proof (cases "?p = ''/api/orders''")
        case True
        then show ?thesis
          using assms(1) delete by (simp add: handler_commonjs_clear clear_orders_unique)
      next
        case False
        then have "snd (handler_commonjs e req s) = s"
          using delete None by (simp add: handler_commonjs_def)
        then show ?thesis using assms(1) by simp
      qed
    next
      case (Some ds)
      then show ?thesis
        using assms(1)
        by (simp add: handler_commonjs_delete_order [OF delete Some] delete_order_unique)
    qed
  next
    case other
    then have "snd (handler_commonjs e req s) = s"
      by (rule handler_commonjs_other_methods)
    then show ?thesis using assms(1) by simp
  qed
qed

lemma ids_stay_unique: "reachable s \<Longrightarrow> unique_ids (stored s)"
proof (induction rule: reachable.induct)
  case init
  show ?case by (simp add: stored_def unique_ids_Nil)
next
  case (step s req e)
  then show ?case by (simp add: handler_unique)
qed

lemma ids_stay_unique_commonjs: "reachable_commonjs s \<Longrightarrow> unique_ids (stored s)"
proof (induction rule: reachable_commonjs.induct)
  case init_commonjs
  show ?case by (simp add: stored_def unique_ids_Nil)
next
  case (step_commonjs s req e)
  then show ?case by (simp add: handler_commonjs_unique)
qed

text \<open>
  C8, as the code has it. Start from a store that was never written and let either
  key-value handler serve any sequence of requests in which every create gives the new
  order an id that is not yet the id of a stored order (the id is \<open>Date.now()\<close>, or,
  in the CommonJS handler, the body's \<open>id\<close> when the body carries one) and no update
  body carries an \<open>id\<close>. Then no two orders of the collection share an id. Neither
  handler checks either condition.
\<close>

theorem reachable_unique_ids:
  assumes "reachable s \<or> reachable_commonjs s"
  shows "unique_ids (stored s)"
  using assms ids_stay_unique ids_stay_unique_commonjs by blast

theorem reachable_unique_ids_witness:
  "stored (snd (handler env_later (rq ''POST'' ''/api/orders'' [] None)
     (snd (handler env0 (rq ''POST'' ''/api/orders'' [] None) None))))
     = [default_order env0, default_order env_later] \<and>
   unique_ids (stored (snd (handler env_later (rq ''POST'' ''/api/orders'' [] None)
     (snd (handler env0 (rq ''POST'' ''/api/orders'' [] None) None))))) \<and>
   length (stored (snd (handler_commonjs env0 (rq ''POST'' ''/api/orders'' [] None)
     (snd (handler_commonjs env0
        (rq ''POST'' ''/api/orders'' [] (Some (JObj [(''id'', JNum 5)]))) None))))) = 2 \<and>
   unique_ids (stored (snd (handler_commonjs env0 (rq ''POST'' ''/api/orders'' [] None)
     (snd (handler_commonjs env0
        (rq ''POST'' ''/api/orders'' [] (Some (JObj [(''id'', JNum 5)]))) None)))))"
proof -
  let ?post = "rq ''POST'' ''/api/orders'' [] None"
  let ?post5 = "rq ''POST'' ''/api/orders'' [] (Some (JObj [(''id'', JNum 5)]))"
  have m: "req_method ?post = ''POST''" "path_of (url ?post) = ''/api/orders''"
    "req_method ?post5 = ''POST''" "path_of (url ?post5) = ''/api/orders''"
    by (simp_all add: rq_def path_of_def)
  have b: "parseBody env0 ?post = JObj []" "parseBody env_later ?post = JObj []"
    by (simp_all add: parseBody_def env_later_def env0_def env_of_def)
  have w: "\<not> kv_set_throws env0" "\<not> kv_set_throws env_later"
    by (simp_all add: env_later_def env0_def env_of_def)
  have r: "readOrders e None = []" for e
    by (simp add: readOrders_def stored_def)
  have r': "readOrders env_later (Some os) = os" "readOrders env0 (Some os) = os" for os
    by (simp_all add: readOrders_def stored_def env_later_def env0_def env_of_def)
  have s1: "snd (handler env0 ?post None) = Some [default_order env0]"
    using post_orders_saved [of env0 ?post None] w
    by (simp add: handler_post m b newOrder_empty r)
  have s2: "snd (handler env_later ?post (Some [default_order env0]))
      = Some [default_order env0, default_order env_later]"
    using post_orders_saved [of env_later ?post "Some [default_order env0]"] w
    by (simp add: handler_post m b newOrder_empty r')
  have f1: "creates ?post \<longrightarrow> fresh_clock env0 None"
    by (simp add: fresh_clock_def stored_def ids_def)
  have f2: "creates ?post \<longrightarrow> fresh_clock env_later (snd (handler env0 ?post None))"
    unfolding s1
    by (simp add: fresh_clock_def stored_def ids_def default_order_def env_later_def
        env0_def env_of_def)
  have k: "updates ?post \<longrightarrow> keeps_id e ?post" for e
    by (simp add: updates_def rq_def)
  have "reachable (snd (handler env0 ?post None))"
    using reachable.init f1 k by (rule reachable.step)
  then have reach: "reachable (snd (handler env_later ?post (snd (handler env0 ?post None))))"
    using f2 k by (rule reachable.step)
  have c1: "snd (handler_commonjs env0 ?post5 None)
      = Some [newOrder_spread env0 (body ?post5)]"
    using w by (simp add: handler_commonjs_post m post_orders_spread_def Let_def
        writeOrders_def r)
  have c2: "snd (handler_commonjs env0 ?post (Some [newOrder_spread env0 (body ?post5)]))
      = Some [newOrder_spread env0 (body ?post5), newOrder_spread env0 (body ?post)]"
    using w by (simp add: handler_commonjs_post m post_orders_spread_def Let_def
        writeOrders_def r')
  have g1: "creates ?post5 \<longrightarrow> fresh_id env0 ?post5 None"
    by (simp add: fresh_id_def stored_def ids_def)
  have g2: "creates ?post \<longrightarrow> fresh_id env0 ?post (snd (handler_commonjs env0 ?post5 None))"
    unfolding c1
    by (simp add: fresh_id_def stored_def ids_def newOrder_spread_def spread_def rq_def
        env0_def env_of_def)
  have k': "updates ?post5 \<longrightarrow> keeps_id_commonjs ?post5"
    "updates ?post \<longrightarrow> keeps_id_commonjs ?post"
    by (simp_all add: updates_def rq_def)
  have "reachable_commonjs (snd (handler_commonjs env0 ?post5 None))"
    using reachable_commonjs.init_commonjs g1 k'(1) by (rule reachable_commonjs.step_commonjs)
  then have reach': "reachable_commonjs
      (snd (handler_commonjs env0 ?post (snd (handler_commonjs env0 ?post5 None))))"
    using g2 k'(2) by (rule reachable_commonjs.step_commonjs)
  have l: "stored (snd (handler env_later ?post (snd (handler env0 ?post None))))
      = [default_order env0, default_order env_later]"
    by (simp add: s1 s2 stored_def)
  have l': "length (stored (snd (handler_commonjs env0 ?post
      (snd (handler_commonjs env0 ?post5 None))))) = 2"
    by (simp add: c1 c2 stored_def)
  from reachable_unique_ids [OF disjI1 [OF reach]] reachable_unique_ids [OF disjI2 [OF reach']]
    l l'
  show ?thesis by blast
qed

text \<open>
  C8 as stated fails: two create requests that read the same millisecond from the clock
  leave two orders with one id in the collection, in either key-value handler.
\<close>

theorem reachable_unique_ids_counterexample:
  "\<not> unique_ids (stored (snd (handler env0 (rq ''POST'' ''/api/orders'' [] None)
       (snd (handler env0 (rq ''POST'' ''/api/orders'' [] None) None))))) \<and>
   \<not> unique_ids (stored (snd (handler_commonjs env0 (rq ''POST'' ''/api/orders'' [] None)
       (snd (handler_commonjs env0 (rq ''POST'' ''/api/orders'' [] None) None)))))"
  by (simp add: unique_ids_def ids_def handler_def handler_commonjs_def post_orders_def
      post_orders_spread_def Let_def writeOrders_def readOrders_def stored_def parseBody_def
      newOrder_def newOrder_spread_def spread_def env0_def env_of_def rq_def path_of_def)

end
